theory Spec2Isabelle
  imports Complex_Main
begin

section \<open>Python values used by the pipeline\<close>

text \<open>
  Exceptions are values. The pipeline has no exception class of its own and no
  \<open>try\<close>: what can be raised is Python's \<open>ZeroDivisionError\<close> (float division),
  numpy's \<open>IndexError\<close> (a boolean mask of the wrong length), \<open>KeyError\<close> (a missing
  dictionary key) and whatever a library call raises, carried by its class name.
  Floating-point numbers are modelled by exact reals.
\<close>

datatype error = ZeroDivisionError | IndexError | KeyError | LibraryError string

text \<open>
  A Python \<open>dict\<close> keeps insertion order: assigning to a key that is present replaces
  the value in place, assigning to a new key appends it.
\<close>

type_synonym 'v dict = "(string \<times> 'v) list"

fun dict_set :: "'v dict \<Rightarrow> string \<Rightarrow> 'v \<Rightarrow> 'v dict" where
  "dict_set [] k v = [(k, v)]"
| "dict_set ((k', v') # d) k v =
     (if k' = k then (k, v) # d else (k', v') # dict_set d k v)"

definition dict_get :: "'v dict \<Rightarrow> string \<Rightarrow> 'v \<Rightarrow> 'v" where
  "dict_get d k dflt = (case map_of d k of None \<Rightarrow> dflt | Some v \<Rightarrow> v)"

definition dict_index :: "'v dict \<Rightarrow> string \<Rightarrow> error + 'v" where
  "dict_index d k = (case map_of d k of None \<Rightarrow> Inl KeyError | Some v \<Rightarrow> Inr v)"

section \<open>Module constants\<close>

definition EEG_BANDS :: "(real \<times> real) dict" where
  "EEG_BANDS =
     [(''Delta'', (1, 4)),
      (''Theta'', (4, 8)),
      (''Alpha'', (8, 12)),
      (''Beta'', (12, 30)),
      (''High Beta'', (30, 45))]"

definition BRODMANN_MAP :: "string list dict" where
  "BRODMANN_MAP =
     [(''Fp1'', [''BA10'', ''BA11'']), (''Fp2'', [''BA10'', ''BA11'']),
      (''F3'', [''BA6'', ''BA8'']), (''F4'', [''BA6'', ''BA8'']),
      (''C3'', [''BA1'', ''BA2'', ''BA3'', ''BA4'']),
      (''C4'', [''BA1'', ''BA2'', ''BA3'', ''BA4'']),
      (''O1'', [''BA17'', ''BA18'']), (''O2'', [''BA17'', ''BA18''])]"

section \<open>The libraries the pipeline calls\<close>

text \<open>
  One channel of an EDF recording, as \<open>pyedflib.EdfReader\<close> hands it out:
  \<open>getSignalLabels()[i]\<close>, \<open>getSampleFrequency(i)\<close> and \<open>readSignal(i)\<close>.
\<close>

record channel =
  label :: string
  sample_frequency :: real
  samples :: "real list"

text \<open>
  The third-party functions are parameters of the model: each returns its value or the
  exception it raises. \<open>butter N Wn\<close> is \<open>scipy.signal.butter(N, Wn, btype="band")\<close>,
  \<open>filtfilt b a x\<close> and \<open>welch x fs nperseg\<close> are the scipy functions of these names,
  \<open>EdfReader\<close> reads the bytes of a file as a recording. The four text readers are the
  PDF, DOCX, CSV and OCR libraries behind \<open>extract_text\<close>.
\<close>

record library =
  butter :: "nat \<Rightarrow> real list \<Rightarrow> error + (real list \<times> real list)"
  filtfilt :: "real list \<Rightarrow> real list \<Rightarrow> real list \<Rightarrow> error + real list"
  welch :: "real list \<Rightarrow> real \<Rightarrow> real \<Rightarrow> error + (real list \<times> real list)"
  EdfReader :: "string \<Rightarrow> error + channel list"
  pdf_text :: "string \<Rightarrow> error + string"
  docx_text :: "string \<Rightarrow> error + string"
  csv_text :: "string \<Rightarrow> error + string"
  ocr_text :: "string \<Rightarrow> error + string"

section \<open>Band power\<close>

text \<open>\<open>numpy.diff\<close> and \<open>numpy.trapz(y, x)\<close>:
  \<open>d = diff(x); (d * (y[1:] + y[:-1]) / 2.0).sum()\<close>.\<close>

definition diff :: "real list \<Rightarrow> real list" where
  "diff x = map2 (\<lambda>b a. b - a) (tl x) (butlast x)"

definition trapz :: "real list \<Rightarrow> real list \<Rightarrow> real" where
  "trapz y x =
     sum_list (map2 (\<lambda>d s. d * s / 2) (diff x) (map2 (\<lambda>b a. b + a) (tl y) (butlast y)))"

text \<open>Indexing an array by a boolean mask keeps the entries whose mask bit is set.\<close>

definition mask_select :: "'a list \<Rightarrow> bool list \<Rightarrow> 'a list" where
  "mask_select xs idx = map fst (filter snd (zip xs idx))"

text \<open>
  \<open>bandpower(data, sf, band, window_sec=2)\<close>. The mask has the length of \<open>freqs\<close>;
  numpy raises \<open>IndexError\<close> when it is applied to an array of another length.
\<close>

definition bandpower ::
  "library \<Rightarrow> real list \<Rightarrow> real \<Rightarrow> real \<times> real \<Rightarrow> real \<Rightarrow> error + real" where
  "bandpower lib data sf band window_sec =
     (case welch lib data sf (window_sec * sf) of
        Inl e \<Rightarrow> Inl e
      | Inr (freqs, psd) \<Rightarrow>
          (let idx_band = map (\<lambda>f. f \<ge> fst band \<and> f \<le> snd band) freqs
           in if length psd \<noteq> length idx_band then Inl IndexError
              else Inr (trapz (mask_select psd idx_band) (mask_select freqs idx_band))))"

section \<open>Analysis of a recording\<close>

definition mean :: "real list \<Rightarrow> real" where
  "mean xs = sum_list xs / real (length xs)"

text \<open>
  Lines 49 to 51 of \<open>analyze_edf\<close>: de-meaning, filter design, zero-phase filtering.
  \<open>fs\<close> is a Python float, so \<open>1/(fs/2)\<close> raises \<open>ZeroDivisionError\<close> when \<open>fs/2\<close>
  is zero. (The mean of an empty signal is never used: nothing is subtracted from.)
\<close>

definition filter_stage :: "library \<Rightarrow> real \<Rightarrow> real list \<Rightarrow> error + real list" where
  "filter_stage lib fs signal =
     (let signal1 = map (\<lambda>x. x - mean signal) signal
      in if fs / 2 = 0 then Inl ZeroDivisionError
         else (case butter lib 4 [1 / (fs / 2), 45 / (fs / 2)] of
                 Inl e \<Rightarrow> Inl e
               | Inr (b, a) \<Rightarrow> filtfilt lib b a signal1))"

text \<open>The loop over \<open>EEG_BANDS\<close> of lines 55 to 57, filling \<open>band_powers\<close>.\<close>

fun band_loop ::
  "library \<Rightarrow> real list \<Rightarrow> real \<Rightarrow> real \<Rightarrow> (real \<times> real) dict \<Rightarrow> real dict
     \<Rightarrow> error + real dict" where
  "band_loop lib signal fs total_power [] band_powers = Inr band_powers"
| "band_loop lib signal fs total_power ((band, edges) # bands) band_powers =
     (case bandpower lib signal fs edges 2 of
        Inl e \<Rightarrow> Inl e
      | Inr bp \<Rightarrow>
          band_loop lib signal fs total_power bands
            (dict_set band_powers band (if total_power > 0 then bp / total_power else 0)))"

text \<open>The body of the loop over the channels, lines 47 to 57.\<close>

definition channel_profile :: "library \<Rightarrow> channel \<Rightarrow> error + real dict" where
  "channel_profile lib c =
     (case filter_stage lib (sample_frequency c) (samples c) of
        Inl e \<Rightarrow> Inl e
      | Inr signal \<Rightarrow>
          (case bandpower lib signal (sample_frequency c) (1, 45) 2 of
             Inl e \<Rightarrow> Inl e
           | Inr total_power \<Rightarrow>
               band_loop lib signal (sample_frequency c) total_power EEG_BANDS []))"

fun channel_loop ::
  "library \<Rightarrow> channel list \<Rightarrow> real dict dict \<Rightarrow> error + real dict dict" where
  "channel_loop lib [] results = Inr results"
| "channel_loop lib (c # cs) results =
     (case channel_profile lib c of
        Inl e \<Rightarrow> Inl e
      | Inr band_powers \<Rightarrow> channel_loop lib cs (dict_set results (label c) band_powers))"

text \<open>
  The recording handle \<open>f\<close>: it is open once \<open>pyedflib.EdfReader\<close> has returned, and
  closed by \<open>f.close()\<close>.
\<close>

datatype handle = NotOpened | Opened | Closed

definition close :: "handle \<Rightarrow> handle" where
  "close h = Closed"

text \<open>
  \<open>analyze_edf(file_path)\<close>, given the bytes stored at that path. The outcome is the
  returned dictionary or the exception that left the function, together with the state
  the handle is left in. \<open>f.close()\<close> is the statement after the loop.
\<close>

definition analyze_edf ::
  "library \<Rightarrow> string \<Rightarrow> (error + real dict dict) \<times> handle" where
  "analyze_edf lib file_bytes =
     (case EdfReader lib file_bytes of
        Inl e \<Rightarrow> (Inl e, NotOpened)
      | Inr f \<Rightarrow>
          (let h = Opened
           in case channel_loop lib f [] of
                Inl e \<Rightarrow> (Inl e, h)
              | Inr results \<Rightarrow> (Inr results, close h)))"

section \<open>Text extraction\<close>

definition endswith :: "string \<Rightarrow> string \<Rightarrow> bool" where
  "endswith s suffix =
     (length suffix \<le> length s \<and> drop (length s - length suffix) s = suffix)"

definition lower_char :: "char \<Rightarrow> char" where
  "lower_char c =
     (let n = (of_char c :: nat) in if 65 \<le> n \<and> n \<le> 90 then char_of (n + 32) else c)"

definition lower :: "string \<Rightarrow> string" where
  "lower s = map lower_char s"

text \<open>\<open>extract_text(file_path)\<close>, given the bytes stored at that path.\<close>

definition extract_text :: "library \<Rightarrow> string \<Rightarrow> string \<Rightarrow> error + string" where
  "extract_text lib file_path file_bytes =
     (if endswith file_path ''.pdf'' then pdf_text lib file_bytes
      else if endswith file_path ''.docx'' then docx_text lib file_bytes
      else if endswith file_path ''.csv'' then csv_text lib file_bytes
      else if endswith (lower file_path) ''.png'' \<or> endswith (lower file_path) ''.jpg''
              \<or> endswith (lower file_path) ''.jpeg'' then ocr_text lib file_bytes
      else Inr [])"

section \<open>Reports\<close>

text \<open>
  A document is the sequence of calls made on the \<open>FPDF\<close> object, each with the values
  its text is formatted from: \<open>Finding ch bands\<close> is the line \<open>"{ch}: {bands}"\<close>,
  \<open>ClinicalNote band ch bmap\<close> and \<open>PatientNote band ch bmap\<close> are the two lines of
  the auto-interpretation, \<open>FormText fname text\<close> is the preview of an uploaded form,
  \<open>HeadMap path band values labels\<close> is the bar chart that \<open>generate_headmap\<close> saves
  at \<open>path\<close> and the report embeds. Fixed headings are given by their first words.

  The documents use the core font Arial, which \<open>FPDF\<close> encodes in Latin-1 when the
  file is written by \<open>output\<close>. The text of a clinical note contains the arrows
  U+2191 and U+2192, which Latin-1 does not have: \<open>output\<close> raises
  \<open>UnicodeEncodeError\<close> on a document with such a note. Every other text is made of
  the 8-bit characters of \<open>string\<close> and is written.
\<close>

datatype item =
    Cell string
  | MultiCell string
  | Finding string "real dict"
  | ClinicalNote string string "string list"
  | PatientNote string string "string list"
  | FormText string string
  | HeadMap string string "real list" "string list"

type_synonym document = "item list"

text \<open>\<open>values = [results[ch][band] for ch in results]\<close>\<close>

fun headmap_values :: "real dict dict \<Rightarrow> real dict dict \<Rightarrow> string \<Rightarrow> error + real list" where
  "headmap_values results [] band = Inr []"
| "headmap_values results ((ch, bs) # rest) band =
     (case dict_index results ch of
        Inl e \<Rightarrow> Inl e
      | Inr bands \<Rightarrow>
          (case dict_index bands band of
             Inl e \<Rightarrow> Inl e
           | Inr v \<Rightarrow>
               (case headmap_values results rest band of
                  Inl e \<Rightarrow> Inl e
                | Inr vs \<Rightarrow> Inr (v # vs))))"

definition generate_headmap :: "real dict dict \<Rightarrow> string \<Rightarrow> string \<Rightarrow> error + item" where
  "generate_headmap results band save_path =
     (case headmap_values results results band of
        Inl e \<Rightarrow> Inl e
      | Inr vals \<Rightarrow> Inr (HeadMap save_path band vals (map fst results)))"

text \<open>
  The auto-interpretation, lines 116 to 123: the inner loop over \<open>bands.items()\<close> and
  the outer loop over \<open>edf_results.items()\<close>. The threshold is the float \<open>0.3\<close>; no
  float lies between it and the real \<open>3/10\<close>, so on floats \<open>val > 0.3\<close> is the
  comparison with \<open>3/10\<close>.
\<close>

fun band_notes :: "string \<Rightarrow> real dict \<Rightarrow> document \<times> document \<Rightarrow> document \<times> document" where
  "band_notes ch [] (clinical, patient) = (clinical, patient)"
| "band_notes ch ((band, val) # bands) (clinical, patient) =
     (if val > 3 / 10
      then (let bmap = dict_get BRODMANN_MAP ch []
            in band_notes ch bands
                 (clinical @ [ClinicalNote band ch bmap], patient @ [PatientNote band ch bmap]))
      else band_notes ch bands (clinical, patient))"

fun auto_interpretation :: "real dict dict \<Rightarrow> document \<times> document \<Rightarrow> document \<times> document" where
  "auto_interpretation [] docs = docs"
| "auto_interpretation ((ch, bands) # rest) docs =
     auto_interpretation rest (band_notes ch bands docs)"

text \<open>
  \<open>os.path.join(dir, file)\<close> on POSIX paths: an absolute \<open>file\<close> replaces the
  directory, and no separator is added to an empty directory or after a trailing slash.
\<close>

definition path_join :: "string \<Rightarrow> string \<Rightarrow> string" where
  "path_join dir file =
     (if take 1 file = ''/'' then file
      else if dir = [] \<or> last dir = CHR ''/'' then dir @ file
      else dir @ ''/'' @ file)"

text \<open>The loop over \<open>EEG_BANDS\<close> that adds the head maps, lines 135 to 139.\<close>

fun headmap_loop ::
  "real dict dict \<Rightarrow> string \<Rightarrow> (real \<times> real) dict \<Rightarrow> document \<times> document
     \<Rightarrow> error + document \<times> document" where
  "headmap_loop edf_results output_dir [] docs = Inr docs"
| "headmap_loop edf_results output_dir ((band, edges) # bands) (clinical, patient) =
     (case generate_headmap edf_results band (path_join output_dir (band @ ''_map.png'')) of
        Inl e \<Rightarrow> Inl e
      | Inr img \<Rightarrow>
          headmap_loop edf_results output_dir bands (clinical @ [img], patient @ [img]))"

definition encodable :: "item \<Rightarrow> bool" where
  "encodable i = (case i of ClinicalNote band ch bmap \<Rightarrow> False | _ \<Rightarrow> True)"

definition pdf_output :: "document \<Rightarrow> error + document" where
  "pdf_output doc =
     (if list_all encodable doc then Inr doc else Inl (LibraryError ''UnicodeEncodeError''))"

text \<open>
  \<open>generate_reports\<close>: the calls on the two documents, then \<open>clinical.output\<close> and
  \<open>patient.output\<close>, modelled by \<open>pdf_output\<close>. The value returned stands for the two
  files written.
\<close>

definition generate_reports ::
  "real dict dict \<Rightarrow> 'u list \<Rightarrow> string \<Rightarrow> string dict \<Rightarrow> error + document \<times> document" where
  "generate_reports edf_results uploads output_dir extracted_texts =
     (let clinical = [Cell ''Comprehensive Clinical QEEG Report''];
          patient = [Cell ''Patient-Friendly Brain Report''];
          clinical = clinical @ [MultiCell ''QEEG Analysis Findings:''];
          clinical = clinical @ map (\<lambda>(ch, bands). Finding ch bands) edf_results;
          (clinical, patient) = auto_interpretation edf_results (clinical, patient);
          clinical = clinical @ [MultiCell ''Uploaded Lifestyle/Background/Localisation Info:''];
          clinical = clinical @ map (\<lambda>(fname, text). FormText fname (take 500 text)) extracted_texts;
          clinical = clinical @ [MultiCell ''Recommended Interventions:''];
          patient = patient @ [MultiCell ''Your Recommendations:'']
      in case headmap_loop edf_results output_dir EEG_BANDS (clinical, patient) of
           Inl e \<Rightarrow> Inl e
         | Inr (clinical, patient) \<Rightarrow>
             (case pdf_output clinical of
                Inl e \<Rightarrow> Inl e
              | Inr clinical_pdf \<Rightarrow>
                  (case pdf_output patient of
                     Inl e \<Rightarrow> Inl e
                   | Inr patient_pdf \<Rightarrow> Inr (clinical_pdf, patient_pdf))))"

section \<open>The application\<close>

record upload =
  name :: string
  read :: string

text \<open>
  The loop of \<open>main\<close> over the uploads, lines 162 to 170. Each file is written to
  \<open>path\<close> and read back from there at once, so what is analysed or extracted is
  \<open>file.read()\<close>.
\<close>

fun upload_loop ::
  "library \<Rightarrow> string \<Rightarrow> upload list \<Rightarrow> real dict dict \<times> string dict
     \<Rightarrow> error + real dict dict \<times> string dict" where
  "upload_loop lib tmpdir [] (edf_results, extracted_texts) =
     Inr (edf_results, extracted_texts)"
| "upload_loop lib tmpdir (file # files) (edf_results, extracted_texts) =
     (let path = path_join tmpdir (name file)
      in if endswith (name file) ''.edf''
         then (case fst (analyze_edf lib (read file)) of
                 Inl e \<Rightarrow> Inl e
               | Inr r \<Rightarrow> upload_loop lib tmpdir files (r, extracted_texts))
         else (case extract_text lib path (read file) of
                 Inl e \<Rightarrow> Inl e
               | Inr text \<Rightarrow>
                   upload_loop lib tmpdir files
                     (edf_results, dict_set extracted_texts (name file) text)))"

text \<open>
  \<open>main\<close>, from the uploads to the two reports offered for download: \<open>None\<close> when no
  report is generated.
\<close>

definition main ::
  "library \<Rightarrow> string \<Rightarrow> upload list \<Rightarrow> error + (document \<times> document) option" where
  "main lib tmpdir uploads =
     (if uploads = [] then Inr None
      else (case upload_loop lib tmpdir uploads ([], []) of
              Inl e \<Rightarrow> Inl e
            | Inr (edf_results, extracted_texts) \<Rightarrow>
                (if edf_results \<noteq> []
                 then (case generate_reports edf_results uploads tmpdir extracted_texts of
                         Inl e \<Rightarrow> Inl e
                       | Inr docs \<Rightarrow> Inr (Some docs))
                 else Inr None)))"

section \<open>Notions used to state the properties\<close>

text \<open>
  The bins of a band, as indices into the frequency array, and the trapezoidal rule
  over sample points \<open>x\<close> with values \<open>y\<close>, both written as the specification words
  them.
\<close>

definition selected_bins :: "real list \<Rightarrow> real \<times> real \<Rightarrow> nat list" where
  "selected_bins freqs band =
     filter (\<lambda>i. fst band \<le> freqs ! i \<and> freqs ! i \<le> snd band) [0..<length freqs]"

definition trapezoid_rule :: "real list \<Rightarrow> real list \<Rightarrow> real" where
  "trapezoid_rule y x =
     (\<Sum>k = 0..<length x - 1. (x ! (k + 1) - x ! k) * (y ! k + y ! (k + 1)) / 2)"

text \<open>The trapezoidal sum over a list of (frequency, power) points.\<close>

fun trap :: "(real \<times> real) list \<Rightarrow> real" where
  "trap (p # q # ps) = (fst q - fst p) * (snd q + snd p) / 2 + trap (q # ps)"
| "trap ps = 0"

text \<open>
  The library calls made for a channel all return, and the spectral estimate has as
  many values as frequency bins.
\<close>

definition psd_available :: "library \<Rightarrow> channel \<Rightarrow> bool" where
  "psd_available lib c =
     (case filter_stage lib (sample_frequency c) (samples c) of
        Inl e \<Rightarrow> False
      | Inr signal \<Rightarrow>
          (case welch lib signal (sample_frequency c) (2 * sample_frequency c) of
             Inl e \<Rightarrow> False
           | Inr (freqs, psd) \<Rightarrow> length psd = length freqs))"

text \<open>
  The annotation events of the specification: channels in the order of the analysis
  result, bands in the order of the registry, a pair selected when its relative power
  exceeds 0.3, the regions looked up with the empty list as default.
\<close>

definition regionsFor :: "string \<Rightarrow> string list" where
  "regionsFor ch = (case map_of BRODMANN_MAP ch of None \<Rightarrow> [] | Some regions \<Rightarrow> regions)"

definition exceeds_threshold :: "real dict \<Rightarrow> string \<Rightarrow> bool" where
  "exceeds_threshold bands band =
     (case map_of bands band of None \<Rightarrow> False | Some v \<Rightarrow> v > 3 / 10)"

definition annotation_events :: "real dict dict \<Rightarrow> (string \<times> string \<times> string list) list" where
  "annotation_events results =
     concat (map (\<lambda>(ch, bands).
        map (\<lambda>band. (ch, band, regionsFor ch))
          (filter (exceeds_threshold bands) (map fst EEG_BANDS))) results)"

text \<open>The annotations a document carries, read off its patient notes.\<close>

fun patient_events :: "document \<Rightarrow> (string \<times> string \<times> string list) list" where
  "patient_events [] = []"
| "patient_events (PatientNote band ch bmap # doc) = (ch, band, bmap) # patient_events doc"
| "patient_events (i # doc) = patient_events doc"

fun clinical_events :: "document \<Rightarrow> (string \<times> string \<times> string list) list" where
  "clinical_events [] = []"
| "clinical_events (ClinicalNote band ch bmap # doc) = (ch, band, bmap) # clinical_events doc"
| "clinical_events (i # doc) = clinical_events doc"

section \<open>A concrete library and concrete recordings\<close>

text \<open>
  Stand-ins for the libraries, to run the model on examples. \<open>butter\<close> rejects corner
  frequencies outside the open interval from 0 to 1, as scipy does, and otherwise returns
  the coefficients of the identity filter; \<open>filtfilt\<close> returns its input; \<open>welch\<close>
  puts the bins at 0, 1, 2, ... Hz and takes the squared samples as power, whatever the
  segment length; the text readers return the bytes. \<open>EdfReader\<close> knows three files.
\<close>

definition chanC3 :: channel where
  "chanC3 = \<lparr>label = ''C3'', sample_frequency = 256, samples = [1, 3, 2, 0, 4, 2]\<rparr>"

definition chanO1 :: channel where
  "chanO1 = \<lparr>label = ''O1'', sample_frequency = 256, samples = [5, 5, 5, 5]\<rparr>"

definition chanX9 :: channel where
  "chanX9 = \<lparr>label = ''X9'', sample_frequency = 200, samples = [0, 0, 0, 0, 3, -3]\<rparr>"

definition chanEMG :: channel where
  "chanEMG = \<lparr>label = ''EMG'', sample_frequency = 50, samples = [1, 3, 2]\<rparr>"

definition chanF4 :: channel where
  "chanF4 = \<lparr>label = ''F4'', sample_frequency = 128,
              samples = [-2, 1, -1, 1, -1, 1, -1, 1, -1, 1, -1, 1, -1, 2]\<rparr>"

definition edf_files :: "string \<Rightarrow> error + channel list" where
  "edf_files file_bytes =
     (if file_bytes = ''REC-A'' then Inr [chanC3, chanO1, chanX9]
      else if file_bytes = ''REC-B'' then Inr [chanC3, chanEMG]
      else if file_bytes = ''REC-C'' then Inr [chanF4]
      else Inl (LibraryError ''OSError''))"

definition scipy_double :: library where
  "scipy_double =
     \<lparr>butter = (\<lambda>N Wn. if list_all (\<lambda>w. 0 < w \<and> w < 1) Wn then Inr ([1], [1])
                         else Inl (LibraryError ''ValueError'')),
      filtfilt = (\<lambda>b a x. Inr x),
      welch = (\<lambda>x fs nperseg. Inr (map real [0..<length x], map (\<lambda>v. v * v) x)),
      EdfReader = edf_files,
      pdf_text = Inr, docx_text = Inr, csv_text = Inr, ocr_text = Inr\<rparr>"

section \<open>Dictionaries\<close>

lemma map_of_dict_set: "map_of (dict_set d k v) = (map_of d)(k \<mapsto> v)"
  by (induction d k v rule: dict_set.induct) auto

lemma keys_dict_set:
  "map fst (dict_set d k v) = (if k \<in> fst ` set d then map fst d else map fst d @ [k])"
  by (induction d k v rule: dict_set.induct) auto

lemma distinct_dict_set: "distinct (map fst d) \<Longrightarrow> distinct (map fst (dict_set d k v))"
  by (simp add: keys_dict_set)

lemma dict_set_fresh: "k \<notin> fst ` set d \<Longrightarrow> dict_set d k v = d @ [(k, v)]"
  by (induction d k v rule: dict_set.induct) auto

lemma set_dict_set: "set (dict_set d k v) \<subseteq> insert (k, v) (set d)"
  by (induction d k v rule: dict_set.induct) auto

section \<open>Band selection and the trapezoidal rule\<close>

lemma mask_select_nths:
  "length xs = length fs \<Longrightarrow>
   mask_select xs (map P fs) = map ((!) xs) (filter (\<lambda>i. P (fs ! i)) [0..<length fs])"
proof (induction xs fs rule: list_induct2)
  case Nil
  then show ?case by (simp add: mask_select_def)
next
  case (Cons x xs f fs)
  have upt: "[0..<length (f # fs)] = 0 # map Suc [0..<length fs]"
    by (simp add: upt_conv_Cons map_Suc_upt del: upt_Suc)
  show ?case
    unfolding upt using Cons.IH
    by (simp add: mask_select_def filter_map o_def)
qed

lemma mask_select_values:
  "length xs = length fs \<Longrightarrow>
   mask_select xs (map P fs) = map snd (filter (\<lambda>p. P (fst p)) (zip fs xs))"
  by (induction xs fs rule: list_induct2) (simp_all add: mask_select_def)

lemma mask_select_freqs:
  "length xs = length fs \<Longrightarrow>
   mask_select fs (map P fs) = map fst (filter (\<lambda>p. P (fst p)) (zip fs xs))"
  by (induction xs fs rule: list_induct2) (simp_all add: mask_select_def)

lemma trapz_trap: "trapz (map snd ps) (map fst ps) = trap ps"
  by (induction ps rule: trap.induct) (simp_all add: trapz_def diff_def)

lemma trapz_trapezoid_rule:
  assumes "length y = length x"
  shows "trapz y x = trapezoid_rule y x"
proof -
  let ?ds = "diff x" and ?ss = "map2 (\<lambda>b a. b + a) (tl y) (butlast y)"
  have len: "length (map2 (\<lambda>d s. d * s / 2) ?ds ?ss) = length x - 1"
    using assms by (simp add: diff_def)
  have "trapz y x = (\<Sum>k = 0..<length x - 1. map2 (\<lambda>d s. d * s / 2) ?ds ?ss ! k)"
    unfolding trapz_def using len by (simp add: sum_list_sum_nth)
  also have "\<dots> = (\<Sum>k = 0..<length x - 1. (x ! (k + 1) - x ! k) * (y ! k + y ! (k + 1)) / 2)"
    using assms by (intro sum.cong) (auto simp: diff_def nth_tl nth_butlast add.commute)
  finally show ?thesis by (simp add: trapezoid_rule_def)
qed

lemma bandpower_trap:
  assumes "welch lib data sf (w * sf) = Inr (freqs, psd)" and "length psd = length freqs"
  shows "bandpower lib data sf band w =
    Inr (trap (filter (\<lambda>p. fst band \<le> fst p \<and> fst p \<le> snd band) (zip freqs psd)))"
  using assms
  by (simp add: bandpower_def Let_def mask_select_values [of psd freqs]
      mask_select_freqs [of psd freqs] trapz_trap)

lemma bandpower_same_outcome:
  "bandpower lib data sf band w = Inr bp \<Longrightarrow> \<exists>bp'. bandpower lib data sf band' w = Inr bp'"
  by (auto simp: bandpower_def Let_def split: sum.splits if_splits)

lemma trap_nonneg:
  "sorted (map fst ps) \<Longrightarrow> \<forall>p \<in> set ps. 0 \<le> snd p \<Longrightarrow> 0 \<le> trap ps"
  by (induction ps rule: trap.induct) (auto intro!: add_nonneg_nonneg mult_nonneg_nonneg)

lemma filter_above_empty:
  "\<forall>p \<in> set ps. (hi::real) < fst p \<Longrightarrow> filter (\<lambda>p. lo \<le> fst p \<and> fst p \<le> hi) ps = []"
  by (induction ps) (auto simp: not_le)

lemma trap_filter_le:
  assumes "sorted (map fst ps)" and "\<forall>p \<in> set ps. 0 \<le> snd p"
  shows "trap (filter (\<lambda>p. lo \<le> fst p \<and> fst p \<le> (hi::real)) ps) \<le> trap ps"
  using assms
proof (induction ps rule: trap.induct)
  case (1 p q ps)
  let ?P = "\<lambda>p. lo \<le> fst p \<and> fst p \<le> hi"
  have srt: "sorted (map fst (q # ps))" and nn: "\<forall>p \<in> set (q # ps). 0 \<le> snd p"
    using "1.prems" by auto
  have IH: "trap (filter ?P (q # ps)) \<le> trap (q # ps)" using "1.IH" srt nn by blast
  have t0: "0 \<le> (fst q - fst p) * (snd q + snd p) / 2"
    using "1.prems" by (auto intro!: mult_nonneg_nonneg)
  show ?case
  proof (cases "?P p")
    case False
    then have "filter ?P (p # q # ps) = filter ?P (q # ps)" by simp
    then show ?thesis using IH t0 by simp
  next
    case Pp: True
    show ?thesis
    proof (cases "?P q")
      case True
      then show ?thesis using Pp IH by simp
    next
      case False
      then have "hi < fst q" using Pp "1.prems"(1) by auto
      then have "\<forall>r \<in> set (q # ps). hi < fst r" using srt by auto
      then have "filter ?P (q # ps) = []" by (rule filter_above_empty)
      then have "filter ?P (p # q # ps) = [p]" using Pp by simp
      then show ?thesis using trap_nonneg[OF "1.prems"] by simp
    qed
  qed
qed simp_all

lemma trap_band_le_broadband:
  assumes srt: "sorted (map fst ps)" and nn: "\<forall>p \<in> set ps. 0 \<le> snd p"
    and sub: "lo' \<le> lo" "hi \<le> (hi'::real)"
  shows "trap (filter (\<lambda>p. lo \<le> fst p \<and> fst p \<le> hi) ps)
           \<le> trap (filter (\<lambda>p. lo' \<le> fst p \<and> fst p \<le> hi') ps)"
proof -
  let ?B = "filter (\<lambda>p. lo' \<le> fst p \<and> fst p \<le> hi') ps"
  have eq: "filter (\<lambda>p. lo \<le> fst p \<and> fst p \<le> hi) ps = filter (\<lambda>p. lo \<le> fst p \<and> fst p \<le> hi) ?B"
    using sub by (auto intro: filter_cong)
  have "sorted (map fst ?B)" using srt by (rule sorted_filter)
  moreover have "\<forall>p \<in> set ?B. 0 \<le> snd p" using nn by simp
  ultimately show ?thesis unfolding eq by (rule trap_filter_le)
qed

section \<open>The loops of the analysis\<close>

lemma distinct_EEG_BANDS: "distinct (map fst EEG_BANDS)"
  by (simp add: EEG_BANDS_def)

lemma band_loop_fresh:
  assumes "distinct (map fst bands)" and "fst ` set bands \<inter> fst ` set acc = {}"
    and "\<forall>(b, e) \<in> set bands. bandpower lib signal fs e 2 = Inr (g e)"
  shows "band_loop lib signal fs tp bands acc =
     Inr (acc @ map (\<lambda>(b, e). (b, if tp > 0 then g e / tp else 0)) bands)"
  using assms
proof (induction bands arbitrary: acc)
  case Nil
  then show ?case by simp
next
  case (Cons x bands)
  obtain b e where x: "x = (b, e)" by (cases x)
  have fresh: "b \<notin> fst ` set acc" using Cons.prems(2) x by auto
  have bp: "bandpower lib signal fs e 2 = Inr (g e)" using Cons.prems(3) x by auto
  let ?acc = "acc @ [(b, if tp > 0 then g e / tp else 0)]"
  have "band_loop lib signal fs tp bands ?acc =
     Inr (?acc @ map (\<lambda>(b, e). (b, if tp > 0 then g e / tp else 0)) bands)"
    using Cons.prems x by (intro Cons.IH) auto
  then show ?case using x bp fresh by (simp add: dict_set_fresh)
qed

lemma channel_profile_value:
  assumes fl: "filter_stage lib (sample_frequency c) (samples c) = Inr signal"
    and tp: "bandpower lib signal (sample_frequency c) (1, 45) 2 = Inr tp"
  shows "channel_profile lib c =
     Inr (map (\<lambda>(b, e). (b, if tp > 0
                 then projr (bandpower lib signal (sample_frequency c) e 2) / tp else 0))
            EEG_BANDS)"
proof -
  have "bandpower lib signal (sample_frequency c) e 2 =
          Inr (projr (bandpower lib signal (sample_frequency c) e 2))" for e
    using bandpower_same_outcome [OF tp, of e] by auto
  then have "\<forall>(b, e) \<in> set EEG_BANDS. bandpower lib signal (sample_frequency c) e 2 =
          Inr (projr (bandpower lib signal (sample_frequency c) e 2))"
    by blast
  from band_loop_fresh [OF distinct_EEG_BANDS _ this, of "[]" tp]
  show ?thesis using fl tp by (simp add: channel_profile_def)
qed

lemma psd_available_profile:
  assumes "psd_available lib c"
  shows "\<exists>band_powers. channel_profile lib c = Inr band_powers"
proof -
  from assms obtain signal freqs psd
    where fl: "filter_stage lib (sample_frequency c) (samples c) = Inr signal"
      and w: "welch lib signal (sample_frequency c) (2 * sample_frequency c) = Inr (freqs, psd)"
      and len: "length psd = length freqs"
    by (auto simp: psd_available_def split: sum.splits)
  from bandpower_trap [OF w len] channel_profile_value [OF fl] show ?thesis by blast
qed

lemma channel_profile_keys:
  assumes "channel_profile lib c = Inr band_powers"
  shows "map fst band_powers = map fst EEG_BANDS"
proof -
  from assms obtain signal tp
    where fl: "filter_stage lib (sample_frequency c) (samples c) = Inr signal"
      and tp: "bandpower lib signal (sample_frequency c) (1, 45) 2 = Inr tp"
    by (auto simp: channel_profile_def split: sum.splits)
  from channel_profile_value [OF fl tp] assms show ?thesis
    by (auto simp: comp_def case_prod_beta)
qed

lemma channel_loop_append:
  "channel_loop lib (xs @ ys) r =
     (case channel_loop lib xs r of Inl e \<Rightarrow> Inl e | Inr r' \<Rightarrow> channel_loop lib ys r')"
  by (induction xs arbitrary: r) (auto split: sum.splits)

lemma channel_loop_returns:
  "\<forall>c \<in> set cs. \<exists>p. channel_profile lib c = Inr p \<Longrightarrow> \<exists>results. channel_loop lib cs r = Inr results"
  by (induction cs arbitrary: r) auto

lemma channel_loop_other_label:
  "channel_loop lib cs r = Inr results \<Longrightarrow> k \<notin> label ` set cs \<Longrightarrow>
   map_of results k = map_of r k"
  by (induction cs arbitrary: r) (auto simp: map_of_dict_set split: sum.splits)

lemma channel_loop_last_label:
  assumes "channel_loop lib (pre @ c # post) r = Inr results"
    and "label c \<notin> label ` set post"
  shows "\<exists>p. channel_profile lib c = Inr p \<and> map_of results (label c) = Some p"
proof -
  from assms(1) obtain r1 p
    where "channel_loop lib pre r = Inr r1" and p: "channel_profile lib c = Inr p"
      and post: "channel_loop lib post (dict_set r1 (label c) p) = Inr results"
    by (auto simp: channel_loop_append split: sum.splits)
  from channel_loop_other_label [OF post assms(2)] p show ?thesis
    by (simp add: map_of_dict_set)
qed

lemma channel_loop_entries:
  assumes "channel_loop lib cs r = Inr results" and "(ch, p) \<in> set results"
  shows "(ch, p) \<in> set r \<or> (\<exists>c \<in> set cs. label c = ch \<and> channel_profile lib c = Inr p)"
  using assms
proof (induction cs arbitrary: r)
  case Nil
  then show ?case by simp
next
  case (Cons c cs)
  from Cons.prems(1) obtain q where q: "channel_profile lib c = Inr q"
    and rest: "channel_loop lib cs (dict_set r (label c) q) = Inr results"
    by (auto split: sum.splits)
  from Cons.IH [OF rest Cons.prems(2)] set_dict_set [of r "label c" q] q
  show ?case by auto
qed

lemma channel_loop_distinct:
  "channel_loop lib cs r = Inr results \<Longrightarrow> distinct (map fst r) \<Longrightarrow> distinct (map fst results)"
  by (induction cs arbitrary: r) (auto simp: distinct_dict_set split: sum.splits)

section \<open>Evaluation of the model on the concrete recordings\<close>

lemmas model_defs =
  analyze_edf_def channel_profile_def filter_stage_def bandpower_def mean_def
  EEG_BANDS_def trapz_def diff_def mask_select_def Let_def close_def psd_available_def

lemmas double_defs =
  scipy_double_def edf_files_def
  chanC3_def chanO1_def chanX9_def chanEMG_def chanF4_def

section \<open>Relative power\<close>

text \<open>
  Claim C1. For every channel of a recording and every canonical band, the relative
  power stored in the analysis result equals the band's integrated power divided by the
  broadband power over 1 to 45 Hz when the broadband power is strictly greater than 0,
  and is exactly 0 otherwise; no exception is raised in the zero case. Here the channel
  \<open>c\<close> is the last one carrying its label (a later channel of the same label would
  replace its entry), and the library calls return for every channel: then the analysis
  returns, and the value stored under the label and the band is the quotient or 0.
\<close>

theorem relative_power_stored:
  assumes rd: "EdfReader lib file_bytes = Inr (pre @ c # post)"
    and last: "label c \<notin> label ` set post"
    and ok: "\<forall>c' \<in> set (pre @ c # post). psd_available lib c'"
    and band: "(band, edges) \<in> set EEG_BANDS"
    and fl: "filter_stage lib (sample_frequency c) (samples c) = Inr signal"
    and tp: "bandpower lib signal (sample_frequency c) (1, 45) 2 = Inr total_power"
    and bp: "bandpower lib signal (sample_frequency c) edges 2 = Inr bp"
  shows "\<exists>results band_powers.
           fst (analyze_edf lib file_bytes) = Inr results \<and>
           map_of results (label c) = Some band_powers \<and>
           map_of band_powers band = Some (if total_power > 0 then bp / total_power else 0)"
proof -
  from ok have "\<forall>c' \<in> set (pre @ c # post). \<exists>p. channel_profile lib c' = Inr p"
    using psd_available_profile by blast
  then obtain results where res: "channel_loop lib (pre @ c # post) [] = Inr results"
    using channel_loop_returns by blast
  from channel_loop_last_label [OF res last] obtain p
    where p: "channel_profile lib c = Inr p" and stored: "map_of results (label c) = Some p"
    by blast
  let ?rel = "\<lambda>(b, e). (b, if total_power > 0
                 then projr (bandpower lib signal (sample_frequency c) e 2) / total_power else 0)"
  have p_eq: "p = map ?rel EEG_BANDS"
    using channel_profile_value [OF fl tp] p by simp
  have "distinct (map fst p)"
    using channel_profile_keys [OF p] distinct_EEG_BANDS by simp
  moreover have "(band, if total_power > 0 then bp / total_power else 0) \<in> set p"
    unfolding p_eq using band bp by force
  ultimately have "map_of p band = Some (if total_power > 0 then bp / total_power else 0)"
    by simp
  moreover have "fst (analyze_edf lib file_bytes) = Inr results"
    using rd res by (simp add: analyze_edf_def)
  ultimately show ?thesis using stored by blast
qed

text \<open>
  The theorem at the recording \<open>REC-A\<close>: the flat channel O1 has broadband power 0 and
  its Alpha entry is 0; the analysis returns.
\<close>

theorem relative_power_stored_witness:
  "\<exists>results band_powers.
     fst (analyze_edf scipy_double ''REC-A'') = Inr results \<and>
     map_of results ''O1'' = Some band_powers \<and> map_of band_powers ''Alpha'' = Some 0"
proof -
  have rd: "EdfReader scipy_double ''REC-A'' = Inr ([chanC3] @ chanO1 # [chanX9])"
    by (simp add: double_defs)
  have last: "label chanO1 \<notin> label ` set [chanX9]"
    by (simp add: double_defs)
  have ok: "\<forall>c' \<in> set ([chanC3] @ chanO1 # [chanX9]). psd_available scipy_double c'"
    by (simp add: model_defs double_defs)
  have band: "(''Alpha'', (8, 12)) \<in> set EEG_BANDS"
    by (simp add: EEG_BANDS_def)
  have fl: "filter_stage scipy_double (sample_frequency chanO1) (samples chanO1) = Inr [0, 0, 0, 0]"
    by (simp add: model_defs double_defs)
  have tp: "bandpower scipy_double [0, 0, 0, 0] (sample_frequency chanO1) (1, 45) 2 = Inr 0"
    by (simp add: model_defs double_defs)
  have bp: "bandpower scipy_double [0, 0, 0, 0] (sample_frequency chanO1) (8, 12) 2 = Inr 0"
    by (simp add: model_defs double_defs)
  from relative_power_stored [OF rd last ok band fl tp bp] show ?thesis
    by (simp add: double_defs)
qed

section \<open>Band power\<close>

text \<open>
  Claim C6. For every PSD (frequency bins and values) and every band, the band power
  selects exactly the frequency bins \<open>f\<close> with \<open>band.low \<le> f \<le> band.high\<close>,
  inclusive at both ends, and returns the trapezoidal-rule integral of the PSD values
  over the selected bins. The selected bins are given by their indices, in increasing
  order.
\<close>

theorem bandpower_selects_and_integrates:
  assumes "welch lib data sf (window_sec * sf) = Inr (freqs, psd)"
    and "length psd = length freqs"
  shows "bandpower lib data sf band window_sec =
           Inr (trapezoid_rule (map ((!) psd) (selected_bins freqs band))
                               (map ((!) freqs) (selected_bins freqs band)))
         \<and> set (selected_bins freqs band) =
             {i. i < length freqs \<and> fst band \<le> freqs ! i \<and> freqs ! i \<le> snd band}
         \<and> sorted (selected_bins freqs band) \<and> distinct (selected_bins freqs band)"
proof -
  let ?P = "\<lambda>f. fst band \<le> f \<and> f \<le> snd band"
  have vals: "mask_select psd (map ?P freqs) = map ((!) psd) (selected_bins freqs band)"
    using assms(2) by (simp add: mask_select_nths selected_bins_def)
  have bins: "mask_select freqs (map ?P freqs) = map ((!) freqs) (selected_bins freqs band)"
    by (simp add: mask_select_nths selected_bins_def)
  have "bandpower lib data sf band window_sec =
          Inr (trapz (map ((!) psd) (selected_bins freqs band))
                     (map ((!) freqs) (selected_bins freqs band)))"
    using assms vals bins by (simp add: bandpower_def Let_def)
  moreover have "sorted (selected_bins freqs band)"
    unfolding selected_bins_def by (rule sorted_wrt_filter) simp
  ultimately show ?thesis
    by (auto simp: trapz_trapezoid_rule selected_bins_def)
qed

text \<open>
  The theorem at a PSD with bins at 0 to 5 Hz: the band from 1 to 4 Hz selects the bins
  1, 2, 3 and 4, both ends included, and the integral is 13/2.
\<close>

theorem bandpower_selects_and_integrates_witness:
  "bandpower scipy_double [-1, 1, 0, -2, 2, 0] 256 (1, 4) 2 = Inr (13 / 2)
   \<and> selected_bins [0, 1, 2, 3, 4, 5] (1, 4) = [1, 2, 3, 4]"
proof -
  have w: "welch scipy_double [-1, 1, 0, -2, 2, 0] 256 (2 * 256) =
             Inr ([0, 1, 2, 3, 4, 5], [1, 1, 0, 4, 4, 0])"
    by (simp add: double_defs upt_rec)
  have len: "length [1, 1, 0, 4, 4, 0 :: real] = length [0, 1, 2, 3, 4, 5 :: real]"
    by simp
  have sel: "selected_bins [0, 1, 2, 3, 4, 5] (1, 4) = [1, 2, 3, 4]"
    by (simp add: selected_bins_def upt_rec)
  from bandpower_selects_and_integrates [OF w len, of "(1, 4)"] sel show ?thesis
    by (simp add: trapezoid_rule_def)
qed

text \<open>
  Claim C2. For every channel and every canonical band, the relative power lies in the
  closed interval from 0 to 1 whenever the broadband power is strictly positive, and is
  exactly 0 when the broadband power is 0, given that the PSD values are nonnegative
  (the canonical bands lie inside 1 to 45 Hz, so their bins are among the broadband
  bins). The frequency bins of the spectral estimate are taken in ascending order, as
  the estimator returns them.
\<close>

theorem relative_power_in_unit_interval:
  assumes fl: "filter_stage lib (sample_frequency c) (samples c) = Inr signal"
    and w: "welch lib signal (sample_frequency c) (2 * sample_frequency c) = Inr (freqs, psd)"
    and len: "length psd = length freqs"
    and srt: "sorted freqs"
    and nn: "\<forall>p \<in> set psd. 0 \<le> p"
  shows "\<exists>band_powers total_power.
           channel_profile lib c = Inr band_powers \<and>
           bandpower lib signal (sample_frequency c) (1, 45) 2 = Inr total_power \<and>
           map fst band_powers = map fst EEG_BANDS \<and>
           (\<forall>(band, v) \<in> set band_powers.
              (total_power > 0 \<longrightarrow> 0 \<le> v \<and> v \<le> 1) \<and> (total_power = 0 \<longrightarrow> v = 0))"
proof -
  let ?pts = "zip freqs psd"
  let ?I = "\<lambda>e. trap (filter (\<lambda>p. fst e \<le> fst p \<and> fst p \<le> snd e) ?pts)"
  define T where "T = ?I (1, 45)"
  define bps where "bps = map (\<lambda>(b, e). (b, if T > 0 then ?I e / T else 0)) EEG_BANDS"
  have bpw: "bandpower lib signal (sample_frequency c) e 2 = Inr (?I e)" for e
    using bandpower_trap [OF w len] .
  have total: "bandpower lib signal (sample_frequency c) (1, 45) 2 = Inr T"
    using bpw [of "(1, 45)"] by (simp add: T_def)
  have prof: "channel_profile lib c = Inr bps"
    using channel_profile_value [OF fl total] by (simp add: bps_def bpw cong: if_cong)
  have keys: "map fst bps = map fst EEG_BANDS"
    by (simp add: bps_def comp_def case_prod_beta)
  have srt': "sorted (map fst ?pts)" using srt len by simp
  have nn': "\<forall>p \<in> set ?pts. 0 \<le> snd p" using nn by (auto dest: set_zip_rightD)
  have lower: "0 \<le> ?I e" for e
    using srt' nn' by (intro trap_nonneg sorted_filter) auto
  have upper: "?I e \<le> T" if "(b, e) \<in> set EEG_BANDS" for b e
  proof -
    from that have "1 \<le> fst e \<and> snd e \<le> 45" by (auto simp: EEG_BANDS_def)
    then show ?thesis using trap_band_le_broadband [OF srt' nn', of 1 "fst e" "snd e" 45]
      by (simp add: T_def)
  qed
  have bound: "(T > 0 \<longrightarrow> 0 \<le> v \<and> v \<le> 1) \<and> (T = 0 \<longrightarrow> v = 0)"
    if "(band, v) \<in> set bps" for band v
  proof -
    from that obtain e where e: "(band, e) \<in> set EEG_BANDS"
      and v: "v = (if T > 0 then ?I e / T else 0)"
      by (auto simp: bps_def)
    show ?thesis using lower [of e] upper [OF e] v by (simp add: divide_le_eq_1)
  qed
  then have "\<forall>(band, v) \<in> set bps. (T > 0 \<longrightarrow> 0 \<le> v \<and> v \<le> 1) \<and> (T = 0 \<longrightarrow> v = 0)"
    by blast
  with prof total keys show ?thesis by blast
qed

text \<open>
  The theorem at channel C3: the profile is 13/17 for Delta, 4/17 for Theta and 0 for
  the other bands, with broadband power 17/2.
\<close>

theorem relative_power_in_unit_interval_witness:
  "channel_profile scipy_double chanC3 =
     Inr [(''Delta'', 13 / 17), (''Theta'', 4 / 17), (''Alpha'', 0), (''Beta'', 0),
          (''High Beta'', 0)]
   \<and> bandpower scipy_double [-1, 1, 0, -2, 2, 0] 256 (1, 45) 2 = Inr (17 / 2)
   \<and> (\<exists>band_powers total_power.
         channel_profile scipy_double chanC3 = Inr band_powers \<and>
         bandpower scipy_double [-1, 1, 0, -2, 2, 0] (sample_frequency chanC3) (1, 45) 2 =
           Inr total_power \<and>
         map fst band_powers = map fst EEG_BANDS \<and>
         (\<forall>(band, v) \<in> set band_powers.
            (total_power > 0 \<longrightarrow> 0 \<le> v \<and> v \<le> 1) \<and> (total_power = 0 \<longrightarrow> v = 0)))"
proof -
  have fl: "filter_stage scipy_double (sample_frequency chanC3) (samples chanC3) =
              Inr [-1, 1, 0, -2, 2, 0]"
    by (simp add: model_defs double_defs)
  have w: "welch scipy_double [-1, 1, 0, -2, 2, 0] (sample_frequency chanC3)
             (2 * sample_frequency chanC3) = Inr ([0, 1, 2, 3, 4, 5], [1, 1, 0, 4, 4, 0])"
    by (simp add: double_defs upt_rec)
  have len: "length [1, 1, 0, 4, 4, 0 :: real] = length [0, 1, 2, 3, 4, 5 :: real]"
    by simp
  have srt: "sorted [0, 1, 2, 3, 4, 5 :: real]"
    by simp
  have nn: "\<forall>p \<in> set [1, 1, 0, 4, 4, 0 :: real]. 0 \<le> p"
    by simp
  have "channel_profile scipy_double chanC3 =
     Inr [(''Delta'', 13 / 17), (''Theta'', 4 / 17), (''Alpha'', 0), (''Beta'', 0),
          (''High Beta'', 0)]"
    by (simp add: model_defs double_defs)
  moreover have "bandpower scipy_double [-1, 1, 0, -2, 2, 0] 256 (1, 45) 2 = Inr (17 / 2)"
    by (simp add: model_defs double_defs)
  ultimately show ?thesis
    using relative_power_in_unit_interval [OF fl w len srt nn] by blast
qed

section \<open>Auto-interpretation\<close>

lemma patient_events_append:
  "patient_events (xs @ ys) = patient_events xs @ patient_events ys"
  by (induction xs rule: patient_events.induct) simp_all

lemma clinical_events_append:
  "clinical_events (xs @ ys) = clinical_events xs @ clinical_events ys"
  by (induction xs rule: clinical_events.induct) simp_all

lemma regionsFor_get: "dict_get BRODMANN_MAP ch [] = regionsFor ch"
  by (simp add: dict_get_def regionsFor_def)

lemma band_notes_events:
  "clinical_events (fst (band_notes ch bands (clinical, patient))) =
     clinical_events clinical @
       map (\<lambda>(band, v). (ch, band, regionsFor ch)) (filter (\<lambda>(band, v). v > 3 / 10) bands)
   \<and> patient_events (snd (band_notes ch bands (clinical, patient))) =
     patient_events patient @
       map (\<lambda>(band, v). (ch, band, regionsFor ch)) (filter (\<lambda>(band, v). v > 3 / 10) bands)"
  by (induction ch bands "(clinical, patient)" arbitrary: clinical patient rule: band_notes.induct)
    (simp_all add: Let_def regionsFor_get clinical_events_append patient_events_append)

lemma auto_interpretation_events:
  "clinical_events (fst (auto_interpretation results docs)) =
     clinical_events (fst docs) @
       concat (map (\<lambda>(ch, bands). map (\<lambda>(band, v). (ch, band, regionsFor ch))
                      (filter (\<lambda>(band, v). v > 3 / 10) bands)) results)
   \<and> patient_events (snd (auto_interpretation results docs)) =
     patient_events (snd docs) @
       concat (map (\<lambda>(ch, bands). map (\<lambda>(band, v). (ch, band, regionsFor ch))
                      (filter (\<lambda>(band, v). v > 3 / 10) bands)) results)"
proof (induction results arbitrary: docs)
  case Nil
  then show ?case by simp
next
  case (Cons x results)
  obtain ch bands where x: "x = (ch, bands)" by (cases x)
  obtain clinical patient where docs: "docs = (clinical, patient)" by (cases docs)
  show ?case
    using Cons.IH [of "band_notes ch bands (clinical, patient)"]
      band_notes_events [of ch bands clinical patient]
    by (simp add: x docs)
qed

lemma filter_by_value_keys:
  assumes "distinct (map fst bands)"
  shows "map fst (filter (\<lambda>(band, v). v > (3 / 10 :: real)) bands) =
           filter (exceeds_threshold bands) (map fst bands)"
proof -
  have "(case p of (band, v) \<Rightarrow> v > 3 / 10) = exceeds_threshold bands (fst p)"
    if "p \<in> set bands" for p
  proof -
    obtain b v where p: "p = (b, v)" by (cases p)
    with that assms have "map_of bands b = Some v" by simp
    then show ?thesis by (simp add: p exceeds_threshold_def)
  qed
  then have "filter (\<lambda>(band, v). v > 3 / 10) bands =
               filter (\<lambda>p. exceeds_threshold bands (fst p)) bands"
    by (intro filter_cong) auto
  then show ?thesis by (simp add: filter_map comp_def)
qed

lemma map_case_fst: "map (\<lambda>(band, v). F band) xs = map F (map fst xs)"
  by (simp add: comp_def case_prod_beta)

lemma profile_events:
  assumes "map fst bands = map fst EEG_BANDS"
  shows "map (\<lambda>(band, v). (ch, band, regionsFor ch)) (filter (\<lambda>(band, v). v > 3 / 10) bands) =
         map (\<lambda>band. (ch, band, regionsFor ch))
           (filter (exceeds_threshold bands) (map fst EEG_BANDS))"
proof -
  have d: "distinct (map fst bands)" using assms distinct_EEG_BANDS by simp
  show ?thesis
    by (simp only: map_case_fst filter_by_value_keys [OF d] assms)
qed

lemma analysis_events:
  assumes "\<forall>(ch, bands) \<in> set results. map fst bands = map fst EEG_BANDS"
  shows "concat (map (\<lambda>(ch, bands). map (\<lambda>(band, v). (ch, band, regionsFor ch))
                      (filter (\<lambda>(band, v). v > 3 / 10) bands)) results) =
         annotation_events results"
  using assms
proof (induction results)
  case Nil
  then show ?case by (simp add: annotation_events_def)
next
  case (Cons x results)
  obtain ch bands where x: "x = (ch, bands)" by (cases x)
  have keys: "map fst bands = map fst EEG_BANDS" using Cons.prems x by simp
  have "concat (map (\<lambda>(ch, bands). map (\<lambda>(band, v). (ch, band, regionsFor ch))
                      (filter (\<lambda>(band, v). v > 3 / 10) bands)) results) =
         annotation_events results"
    using Cons by simp
  then show ?case using profile_events [OF keys, of ch]
    by (simp add: annotation_events_def x)
qed

lemma analyze_edf_keys:
  assumes "fst (analyze_edf lib file_bytes) = Inr results"
  shows "\<forall>(ch, bands) \<in> set results. map fst bands = map fst EEG_BANDS"
proof -
  from assms obtain f where "channel_loop lib f [] = Inr results"
    by (auto simp: analyze_edf_def Let_def split: sum.splits)
  from channel_loop_entries [OF this] channel_profile_keys show ?thesis by fastforce
qed

text \<open>
  Claim C9. For every analysis result, the auto-interpretation emits an annotation for
  exactly the (channel, band) pairs whose relative power is strictly greater than 0.3;
  each annotation carries the regions that the lookup gives for the channel, the empty
  list when the channel is unmapped; the annotations come in the order of the channels
  in the analysis result and, within a channel, of the bands in the registry. The
  annotations are the calls that the loops of lines 116 to 123 make on the two
  documents: they add these notes, in this order, and no other.
\<close>

theorem annotations_of_auto_interpretation:
  assumes "fst (analyze_edf lib file_bytes) = Inr results"
  shows "clinical_events (fst (auto_interpretation results (clinical, patient))) =
           clinical_events clinical @ annotation_events results \<and>
         patient_events (snd (auto_interpretation results (clinical, patient))) =
           patient_events patient @ annotation_events results"
  using auto_interpretation_events [of results "(clinical, patient)"]
    analysis_events [OF analyze_edf_keys [OF assms]]
  by simp

text \<open>
  The theorem at the recording \<open>REC-A\<close>: C3 exceeds the threshold in Delta (13/17), the
  unmapped channel X9 in Delta (1/3) and Theta (2/3), with no regions; the flat channel
  O1 yields no annotation.
\<close>

theorem annotations_of_auto_interpretation_witness:
  "auto_interpretation (projr (fst (analyze_edf scipy_double ''REC-A''))) ([], []) =
     ([ClinicalNote ''Delta'' ''C3'' [''BA1'', ''BA2'', ''BA3'', ''BA4''],
       ClinicalNote ''Delta'' ''X9'' [], ClinicalNote ''Theta'' ''X9'' []],
      [PatientNote ''Delta'' ''C3'' [''BA1'', ''BA2'', ''BA3'', ''BA4''],
       PatientNote ''Delta'' ''X9'' [], PatientNote ''Theta'' ''X9'' []])
   \<and> annotation_events (projr (fst (analyze_edf scipy_double ''REC-A''))) =
     [(''C3'', ''Delta'', [''BA1'', ''BA2'', ''BA3'', ''BA4'']),
      (''X9'', ''Delta'', []), (''X9'', ''Theta'', [])]
   \<and> clinical_events
        (fst (auto_interpretation (projr (fst (analyze_edf scipy_double ''REC-A''))) ([], []))) =
       annotation_events (projr (fst (analyze_edf scipy_double ''REC-A'')))
   \<and> patient_events
        (snd (auto_interpretation (projr (fst (analyze_edf scipy_double ''REC-A''))) ([], []))) =
       annotation_events (projr (fst (analyze_edf scipy_double ''REC-A'')))"
proof -
  let ?results =
    "[(''C3'', [(''Delta'', 13 / 17), (''Theta'', 4 / 17), (''Alpha'', 0), (''Beta'', 0),
                (''High Beta'', 0)]),
      (''O1'', [(''Delta'', 0), (''Theta'', 0), (''Alpha'', 0), (''Beta'', 0),
                (''High Beta'', 0)]),
      (''X9'', [(''Delta'', 1 / 3), (''Theta'', 2 / 3), (''Alpha'', 0), (''Beta'', 0),
                (''High Beta'', 0 :: real)])]"
  have an: "fst (analyze_edf scipy_double ''REC-A'') = Inr ?results"
    by (simp add: model_defs double_defs)
  have calls: "auto_interpretation ?results ([], []) =
     ([ClinicalNote ''Delta'' ''C3'' [''BA1'', ''BA2'', ''BA3'', ''BA4''],
       ClinicalNote ''Delta'' ''X9'' [], ClinicalNote ''Theta'' ''X9'' []],
      [PatientNote ''Delta'' ''C3'' [''BA1'', ''BA2'', ''BA3'', ''BA4''],
       PatientNote ''Delta'' ''X9'' [], PatientNote ''Theta'' ''X9'' []])"
    by (simp add: dict_get_def BRODMANN_MAP_def Let_def)
  have ev: "annotation_events ?results =
     [(''C3'', ''Delta'', [''BA1'', ''BA2'', ''BA3'', ''BA4'']),
      (''X9'', ''Delta'', []), (''X9'', ''Theta'', [])]"
    by (simp add: annotation_events_def exceeds_threshold_def regionsFor_def EEG_BANDS_def
        BRODMANN_MAP_def)
  from annotations_of_auto_interpretation [OF an, of "[]" "[]"] calls ev an show ?thesis
    by simp
qed

text \<open>
  A report with an annotation is not written: on the analysis of \<open>REC-A\<close> the clinical
  document carries three clinical notes and \<open>clinical.output\<close> raises.
\<close>

lemma generate_reports_with_notes:
  "generate_reports
     [(''C3'', [(''Delta'', 13 / 17), (''Theta'', 4 / 17), (''Alpha'', 0), (''Beta'', 0),
                (''High Beta'', 0)]),
      (''O1'', [(''Delta'', 0), (''Theta'', 0), (''Alpha'', 0), (''Beta'', 0),
                (''High Beta'', 0)]),
      (''X9'', [(''Delta'', 1 / 3), (''Theta'', 2 / 3), (''Alpha'', 0), (''Beta'', 0),
                (''High Beta'', 0)])] ([] :: upload list) ''/tmp'' [] =
   Inl (LibraryError ''UnicodeEncodeError'')"
  by (simp add: generate_reports_def generate_headmap_def dict_index_def dict_get_def
      EEG_BANDS_def BRODMANN_MAP_def path_join_def Let_def pdf_output_def encodable_def)

section \<open>Several recordings in one batch\<close>

lemma upload_loop_no_edf:
  assumes "upload_loop lib tmpdir files (r0, t0) = Inr (r, t)"
    and "filter (\<lambda>u. endswith (name u) ''.edf'') files = []"
  shows "r = r0"
  using assms
  by (induction files arbitrary: t0) (auto simp: Let_def split: sum.splits if_splits)

lemma upload_loop_last_edf:
  assumes "upload_loop lib tmpdir files (r0, t0) = Inr (r, t)"
    and "filter (\<lambda>u. endswith (name u) ''.edf'') files \<noteq> []"
  shows "fst (analyze_edf lib (read (last (filter (\<lambda>u. endswith (name u) ''.edf'') files)))) = Inr r"
  using assms
proof (induction files arbitrary: r0 t0)
  case Nil
  then show ?case by simp
next
  case (Cons u files)
  let ?edf = "\<lambda>u. endswith (name u) ''.edf''"
  show ?case
  proof (cases "?edf u")
    case True
    from Cons.prems(1) True obtain r1
      where r1: "fst (analyze_edf lib (read u)) = Inr r1"
        and rest: "upload_loop lib tmpdir files (r1, t0) = Inr (r, t)"
      by (auto simp: Let_def split: sum.splits)
    show ?thesis
    proof (cases "filter ?edf files = []")
      case True
      from upload_loop_no_edf [OF rest True] have "r = r1" .
      with r1 True \<open>?edf u\<close> show ?thesis by simp
    next
      case False
      with Cons.IH [OF rest False] show ?thesis by simp
    qed
  next
    case False
    with Cons.prems obtain tx
      where rest: "upload_loop lib tmpdir files (r0, dict_set t0 (name u) tx) = Inr (r, t)"
        and ne: "filter ?edf files \<noteq> []"
      by (auto simp: Let_def split: sum.splits)
    from Cons.IH [OF rest ne] False show ?thesis by simp
  qed
qed

lemma upload_loop_texts:
  assumes "upload_loop lib tmpdir files (r0, t0) = Inr (r, t)"
  shows "upload_loop lib tmpdir (filter (\<lambda>u. \<not> endswith (name u) ''.edf'') files) (r1, t0) =
           Inr (r1, t)"
  using assms
  by (induction files arbitrary: r0 t0) (auto simp: Let_def split: sum.splits if_splits)

text \<open>
  Claim C10. When one batch of uploads contains more than one \<open>.edf\<close> recording, each
  analysis replaces the previous one as a whole, so the generated reports reflect only
  the last \<open>.edf\<close> file in upload order; results are never merged across recordings.
  Whenever reports are generated, they are the reports of the analysis of the last
  \<open>.edf\<close> upload alone, together with the texts extracted from the other uploads, which
  do not depend on any recording; the list of uploads passed to \<open>generate_reports\<close> is
  not read there, so the empty list gives the same reports.
\<close>

theorem reports_reflect_last_edf:
  assumes "main lib tmpdir uploads = Inr (Some docs)"
  shows "\<exists>results texts.
           filter (\<lambda>u. endswith (name u) ''.edf'') uploads \<noteq> [] \<and>
           fst (analyze_edf lib
                  (read (last (filter (\<lambda>u. endswith (name u) ''.edf'') uploads)))) = Inr results \<and>
           upload_loop lib tmpdir (filter (\<lambda>u. \<not> endswith (name u) ''.edf'') uploads) ([], []) =
             Inr ([], texts) \<and>
           generate_reports results uploads tmpdir texts = Inr docs \<and>
           generate_reports results ([] :: upload list) tmpdir texts = Inr docs"
proof -
  from assms obtain results texts
    where loop: "upload_loop lib tmpdir uploads ([], []) = Inr (results, texts)"
      and ne: "results \<noteq> []"
      and gen: "generate_reports results uploads tmpdir texts = Inr docs"
    by (auto simp: main_def split: if_splits sum.splits)
  have edf: "filter (\<lambda>u. endswith (name u) ''.edf'') uploads \<noteq> []"
    using upload_loop_no_edf [OF loop] ne by blast
  have "generate_reports results ([] :: upload list) tmpdir texts = Inr docs"
    using gen by (simp add: generate_reports_def)
  with upload_loop_last_edf [OF loop edf] upload_loop_texts [OF loop] edf gen
  show ?thesis by blast
qed

text \<open>
  The theorem at a batch with the recordings \<open>REC-A\<close> and \<open>REC-C\<close> and a form between
  them: the reports are those of channel F4 of \<open>REC-C\<close> only, in which no band exceeds
  the threshold.
\<close>

theorem reports_reflect_last_edf_witness:
  "\<exists>docs results texts.
     main scipy_double ''/tmp/x''
       [\<lparr>name = ''a.edf'', read = ''REC-A''\<rparr>, \<lparr>name = ''n.csv'', read = ''hello''\<rparr>,
        \<lparr>name = ''c.edf'', read = ''REC-C''\<rparr>] = Inr (Some docs) \<and>
     fst (analyze_edf scipy_double ''REC-C'') = Inr results \<and>
     results = [(''F4'', [(''Delta'', 2 / 9), (''Theta'', 8 / 27), (''Alpha'', 8 / 27),
                          (''Beta'', 5 / 27), (''High Beta'', 0)])] \<and>
     texts = [(''n.csv'', ''hello'')] \<and>
     generate_reports results
       [\<lparr>name = ''a.edf'', read = ''REC-A''\<rparr>, \<lparr>name = ''n.csv'', read = ''hello''\<rparr>,
        \<lparr>name = ''c.edf'', read = ''REC-C''\<rparr>] ''/tmp/x'' texts = Inr docs"
proof -
  let ?uploads = "[\<lparr>name = ''a.edf'', read = ''REC-A''\<rparr>, \<lparr>name = ''n.csv'', read = ''hello''\<rparr>,
        \<lparr>name = ''c.edf'', read = ''REC-C''\<rparr>]"
  have a: "fst (analyze_edf scipy_double ''REC-A'') =
     Inr [(''C3'', [(''Delta'', 13 / 17), (''Theta'', 4 / 17), (''Alpha'', 0), (''Beta'', 0),
                (''High Beta'', 0)]),
      (''O1'', [(''Delta'', 0), (''Theta'', 0), (''Alpha'', 0), (''Beta'', 0),
                (''High Beta'', 0)]),
      (''X9'', [(''Delta'', 1 / 3), (''Theta'', 2 / 3), (''Alpha'', 0), (''Beta'', 0),
                (''High Beta'', 0)])]"
    by (simp add: model_defs double_defs)
  have c: "fst (analyze_edf scipy_double ''REC-C'') =
     Inr [(''F4'', [(''Delta'', 2 / 9), (''Theta'', 8 / 27), (''Alpha'', 8 / 27),
                    (''Beta'', 5 / 27), (''High Beta'', 0)])]"
    by (simp add: model_defs double_defs)
  have t: "extract_text scipy_double (path_join ''/tmp/x'' ''n.csv'') ''hello'' = Inr ''hello''"
    by (simp add: extract_text_def endswith_def path_join_def scipy_double_def)
  have loop: "upload_loop scipy_double ''/tmp/x'' ?uploads ([], []) =
     Inr ([(''F4'', [(''Delta'', 2 / 9), (''Theta'', 8 / 27), (''Alpha'', 8 / 27),
                     (''Beta'', 5 / 27), (''High Beta'', 0)])], [(''n.csv'', ''hello'')])"
    by (simp add: a c t endswith_def)
  obtain docs where m: "main scipy_double ''/tmp/x'' ?uploads = Inr (Some docs)"
    by (simp add: main_def loop generate_reports_def generate_headmap_def dict_index_def
        dict_get_def EEG_BANDS_def BRODMANN_MAP_def path_join_def Let_def pdf_output_def
        encodable_def del: upload_loop.simps)
  from reports_reflect_last_edf [OF m] obtain results texts
    where r: "fst (analyze_edf scipy_double
                (read (last (filter (\<lambda>u. endswith (name u) ''.edf'') ?uploads)))) = Inr results"
      and tx: "upload_loop scipy_double ''/tmp/x''
                 (filter (\<lambda>u. \<not> endswith (name u) ''.edf'') ?uploads) ([], []) = Inr ([], texts)"
      and g: "generate_reports results ?uploads ''/tmp/x'' texts = Inr docs"
    by blast
  from r have r': "results = [(''F4'', [(''Delta'', 2 / 9), (''Theta'', 8 / 27), (''Alpha'', 8 / 27),
                    (''Beta'', 5 / 27), (''High Beta'', 0)])]"
    by (simp add: endswith_def c)
  from tx have t': "texts = [(''n.csv'', ''hello'')]"
    by (simp add: endswith_def t)
  from m c r' t' g show ?thesis by blast
qed

section \<open>Failures of the library calls\<close>

text \<open>
  Claim C3, as amended. When the sample rate is low enough that the 45 Hz corner reaches
  or exceeds the Nyquist frequency, the Filter Stage fails rather than producing a
  filtered signal, but not with an \<open>InvalidSampleRate\<close> error, which the code does not
  have: the failure is the exception that the filter design raises for the corner
  \<open>45/(fs/2)\<close>, or the division by zero at \<open>fs = 0\<close>. That the filter design rejects
  corner frequencies outside the open interval from 0 to 1 is the property of scipy's
  \<open>butter\<close> that the code relies on.
\<close>

theorem filter_stage_fails_below_nyquist:
  assumes rejects: "\<And>N Wn. \<not> list_all (\<lambda>w. 0 < w \<and> w < 1) Wn \<Longrightarrow> isl (butter lib N Wn)"
    and low: "45 \<ge> fs / 2"
  shows "\<exists>e. filter_stage lib fs signal = Inl e \<and>
             (if fs / 2 = 0 then e = ZeroDivisionError
              else butter lib 4 [1 / (fs / 2), 45 / (fs / 2)] = Inl e)"
proof (cases "fs / 2 = 0")
  case True
  then show ?thesis by (simp add: filter_stage_def)
next
  case False
  have "\<not> (0 < 45 / (fs / 2) \<and> 45 / (fs / 2) < 1)"
  proof (cases "0 < fs / 2")
    case True
    with low have "1 \<le> 45 / (fs / 2)" by (simp add: le_divide_eq)
    then show ?thesis by simp
  next
    case neg: False
    with False have "fs / 2 < 0" by simp
    then have "45 / (fs / 2) < 0" by (simp add: divide_less_0_iff)
    then show ?thesis by simp
  qed
  then have "isl (butter lib 4 [1 / (fs / 2), 45 / (fs / 2)])"
    by (intro rejects) simp
  then obtain e where "butter lib 4 [1 / (fs / 2), 45 / (fs / 2)] = Inl e"
    by (cases "butter lib 4 [1 / (fs / 2), 45 / (fs / 2)]") auto
  with False show ?thesis by (simp add: filter_stage_def Let_def)
qed

text \<open>
  The theorem at 50 Hz, where the corner 45 Hz exceeds the Nyquist frequency 25 Hz.
\<close>

theorem filter_stage_fails_below_nyquist_witness:
  "\<exists>e. filter_stage scipy_double 50 [1, 3, 2] = Inl e \<and>
        butter scipy_double 4 [1 / (50 / 2), 45 / (50 / 2)] = Inl e"
proof -
  have rejects: "\<not> list_all (\<lambda>w. 0 < w \<and> w < 1) Wn \<Longrightarrow> isl (butter scipy_double N Wn)"
    for N Wn
    by (simp add: scipy_double_def)
  have low: "45 \<ge> (50 :: real) / 2"
    by simp
  from filter_stage_fails_below_nyquist [OF rejects low, of "[1, 3, 2]"] show ?thesis
    by simp
qed

text \<open>
  At 50 Hz the Filter Stage fails with the \<open>ValueError\<close> of the filter design: that is
  the error of the library, not an error named \<open>InvalidSampleRate\<close>.
\<close>

theorem filter_stage_guard_counterexample:
  "45 \<ge> (50 :: real) / 2
   \<and> filter_stage scipy_double 50 [1, 3, 2] = Inl (LibraryError ''ValueError'')
   \<and> filter_stage scipy_double 50 [1, 3, 2] \<noteq> Inl (LibraryError ''InvalidSampleRate'')"
  by (simp add: filter_stage_def mean_def double_defs)

text \<open>
  Claim C4, as amended. The specification asks that a failing channel be recorded and
  the remaining channels still be analysed. The code has no handler: when a channel
  fails its filter or spectral step, \<open>analyze_edf\<close> raises that exception at the first
  such channel and returns no profile for any channel, also not for the channels already
  processed.
\<close>

theorem analysis_aborts_at_first_failure:
  assumes "EdfReader lib file_bytes = Inr (pre @ c # post)"
    and "\<forall>c' \<in> set pre. \<not> isl (channel_profile lib c')"
    and "channel_profile lib c = Inl e"
  shows "fst (analyze_edf lib file_bytes) = Inl e"
proof -
  from assms(2) have "\<forall>c' \<in> set pre. \<exists>p. channel_profile lib c' = Inr p"
    by (metis sum.collapse(2))
  then obtain r where "channel_loop lib pre [] = Inr r"
    using channel_loop_returns by blast
  then have "channel_loop lib (pre @ c # post) [] = Inl e"
    using assms(3) by (simp add: channel_loop_append)
  then show ?thesis using assms(1) by (simp add: analyze_edf_def)
qed

theorem analysis_aborts_at_first_failure_witness:
  "fst (analyze_edf scipy_double ''REC-B'') = Inl (LibraryError ''ValueError'')"
proof -
  have rd: "EdfReader scipy_double ''REC-B'' = Inr ([chanC3] @ chanEMG # [])"
    by (simp add: double_defs)
  have pre: "\<forall>c' \<in> set [chanC3]. \<not> isl (channel_profile scipy_double c')"
    by (simp add: model_defs double_defs)
  have bad: "channel_profile scipy_double chanEMG = Inl (LibraryError ''ValueError'')"
    by (simp add: model_defs double_defs)
  from analysis_aborts_at_first_failure [OF rd pre bad] show ?thesis .
qed

text \<open>
  The recording \<open>REC-B\<close> has the channel C3 at 256 Hz, whose profile is valid, and the
  channel EMG at 50 Hz: the analysis returns the exception and no profile.
\<close>

theorem partial_result_counterexample:
  "EdfReader scipy_double ''REC-B'' = Inr [chanC3, chanEMG]
   \<and> sample_frequency chanEMG = 50
   \<and> channel_profile scipy_double chanC3 =
       Inr [(''Delta'', 13 / 17), (''Theta'', 4 / 17), (''Alpha'', 0), (''Beta'', 0),
            (''High Beta'', 0)]
   \<and> fst (analyze_edf scipy_double ''REC-B'') = Inl (LibraryError ''ValueError'')"
  by (simp add: model_defs double_defs)

text \<open>
  Claim C5, as amended. The specification asks that the spectral estimate fail with
  \<open>InsufficientSamples\<close> when the segment is longer than the signal. The code does not
  compare the two lengths: \<open>bandpower\<close> passes \<open>nperseg = window_sec * sf\<close> to the
  estimator and fails exactly when the estimator raises, with its exception, or when the
  two arrays returned differ in length; otherwise it returns a band power.
\<close>

theorem bandpower_fails_as_library:
  "bandpower lib data sf band window_sec = Inl e \<longleftrightarrow>
     welch lib data sf (window_sec * sf) = Inl e \<or>
     (\<exists>freqs psd. welch lib data sf (window_sec * sf) = Inr (freqs, psd) \<and>
                  length psd \<noteq> length freqs \<and> e = IndexError)"
  by (auto simp: bandpower_def Let_def split: sum.splits)

theorem bandpower_fails_as_library_witness:
  "bandpower scipy_double [-1, 1, 0, -2, 2, 0] 256 (1, 45) 2 \<noteq> Inl IndexError"
  using bandpower_fails_as_library [of scipy_double "[-1, 1, 0, -2, 2, 0]" 256 "(1, 45)" 2 IndexError]
  by (simp add: scipy_double_def)

text \<open>
  A segment of 2 seconds at 256 Hz has 512 samples, the signal has 6: with an estimator
  that returns an estimate at any segment length, the band power is returned.
\<close>

theorem segment_length_counterexample:
  "2 * (256 :: real) > real (length [-1, 1, 0, -2, 2, 0 :: real])
   \<and> bandpower scipy_double [-1, 1, 0, -2, 2, 0] 256 (1, 45) 2 = Inr (17 / 2)"
  by (simp add: model_defs double_defs)

section \<open>The recording handle\<close>

text \<open>
  Claim C7 asks that the handle be closed on every exit path. On the recording \<open>REC-B\<close>
  the second channel fails in the filter design: the exception leaves \<open>analyze_edf\<close>
  before \<open>f.close()\<close> and the handle stays open.
\<close>

theorem handle_left_open_on_failure:
  "snd (analyze_edf scipy_double ''REC-B'') = Opened
   \<and> isl (fst (analyze_edf scipy_double ''REC-B''))
   \<and> snd (analyze_edf scipy_double ''REC-A'') = Closed"
  by (simp add: model_defs double_defs)

section \<open>Gain invariance\<close>

lemma mean_scale: "mean (map ((*) g) xs) = g * mean xs"
  by (simp add: mean_def sum_list_const_mult)

lemma demean_scale:
  "map (\<lambda>x. x - mean (map ((*) g) xs)) (map ((*) g) xs) =
   map ((*) g) (map (\<lambda>x. x - mean xs) xs)"
  by (simp add: mean_scale right_diff_distrib comp_def)

lemma mask_select_map: "mask_select (map f xs) idx = map f (mask_select xs idx)"
  by (simp add: mask_select_def zip_map1 filter_map comp_def case_prod_beta)

lemma trapz_scale: "trapz (map ((*) k) y) x = k * trapz y x"
proof -
  have 1: "map2 (\<lambda>b a. b + a) (tl (map ((*) k) y)) (butlast (map ((*) k) y)) =
           map ((*) k) (map2 (\<lambda>b a. b + a) (tl y) (butlast y))"
    by (simp add: map_tl [symmetric] map_butlast [symmetric] zip_map_map distrib_left
        case_prod_beta comp_def)
  have 2: "map2 (\<lambda>d s. d * s / 2) ds (map ((*) k) ss) =
           map ((*) k) (map2 (\<lambda>d s. d * s / 2) ds ss)" for ds ss :: "real list"
    by (simp add: zip_map2 case_prod_beta)
  have 3: "sum_list (map ((*) k) zs) = k * sum_list zs" for zs :: "real list"
    by (induction zs) (simp_all add: distrib_left)
  show ?thesis
    unfolding trapz_def 1 2 by (rule 3)
qed

lemma bandpower_scale:
  assumes "welch lib x' fs (w * fs) =
             map_sum id (\<lambda>(f, p). (f, map ((*) k) p)) (welch lib x fs (w * fs))"
  shows "bandpower lib x' fs band w = map_sum id ((*) k) (bandpower lib x fs band w)"
  using assms
  by (cases "welch lib x fs (w * fs)")
    (auto simp: bandpower_def Let_def mask_select_map trapz_scale)

lemma band_loop_scale:
  assumes "0 < k"
    and "\<And>band. bandpower lib x' fs band 2 = map_sum id ((*) k) (bandpower lib x fs band 2)"
  shows "band_loop lib x' fs (k * tp) bands acc = band_loop lib x fs tp bands acc"
proof (induction bands arbitrary: acc)
  case Nil
  then show ?case by simp
next
  case (Cons b bands)
  obtain band edges where b: "b = (band, edges)" by (cases b)
  have pos: "0 < k * tp \<longleftrightarrow> 0 < tp" using assms(1) by (simp add: zero_less_mult_iff)
  show ?case
  proof (cases "bandpower lib x fs edges 2")
    case (Inl e)
    then show ?thesis using assms(2) [of edges] by (simp add: b)
  next
    case (Inr bp)
    then show ?thesis
      using assms Cons.IH by (simp add: b pos)
  qed
qed

text \<open>
  Claim C8. For every channel signal, every band and every positive gain \<open>g\<close>,
  multiplying all raw samples by \<open>g\<close> before filtering leaves every relative power of
  the channel unchanged: the gain cancels in the quotient of band power and broadband
  power. The statement is over exact reals, for a filtering call that is homogeneous
  (scaling the input scales the output) and a spectral estimate that is quadratic
  (scaling the input by \<open>g\<close> scales the power by \<open>g * g\<close> and leaves the bins), both at
  the channel's sample rate.
\<close>

theorem relative_power_gain_invariant:
  assumes g: "0 < g"
    and filt: "\<And>b a x. filtfilt lib b a (map ((*) g) x) =
                 map_sum id (map ((*) g)) (filtfilt lib b a x)"
    and wel: "\<And>x n. welch lib (map ((*) g) x) (sample_frequency c) n =
                 map_sum id (\<lambda>(f, p). (f, map ((*) (g * g)) p))
                   (welch lib x (sample_frequency c) n)"
  shows "channel_profile lib (c\<lparr>samples := map ((*) g) (samples c)\<rparr>) = channel_profile lib c"
proof -
  let ?fs = "sample_frequency c"
  have fl: "filter_stage lib ?fs (map ((*) g) (samples c)) =
              map_sum id (map ((*) g)) (filter_stage lib ?fs (samples c))"
    unfolding filter_stage_def Let_def demean_scale
    by (auto simp: filt simp del: map_map split: sum.splits)
  show ?thesis
  proof (cases "filter_stage lib ?fs (samples c)")
    case (Inl e)
    then show ?thesis using fl by (simp add: channel_profile_def)
  next
    case (Inr signal)
    have bpw: "bandpower lib (map ((*) g) signal) ?fs band 2 =
                 map_sum id ((*) (g * g)) (bandpower lib signal ?fs band 2)" for band
      by (rule bandpower_scale) (rule wel)
    have gg: "0 < g * g" using g by simp
    show ?thesis
    proof (cases "bandpower lib signal ?fs (1, 45) 2")
      case (Inl e)
      then show ?thesis using fl Inr bpw [of "(1, 45)"] by (simp add: channel_profile_def)
    next
      case tp: (Inr tp)
      show ?thesis
        using fl Inr tp bpw [of "(1, 45)"] band_loop_scale [OF gg bpw, of tp EEG_BANDS "[]"]
        by (simp add: channel_profile_def)
    qed
  qed
qed

text \<open>
  The theorem at channel C3 and gain 2: the samples 2, 6, 4, 0, 8, 4 give the profile of
  the samples 1, 3, 2, 0, 4, 2.
\<close>

theorem relative_power_gain_invariant_witness:
  "channel_profile scipy_double \<lparr>label = ''C3'', sample_frequency = 256, samples = [2, 6, 4, 0, 8, 4]\<rparr> =
     channel_profile scipy_double chanC3
   \<and> channel_profile scipy_double chanC3 =
       Inr [(''Delta'', 13 / 17), (''Theta'', 4 / 17), (''Alpha'', 0), (''Beta'', 0),
            (''High Beta'', 0)]"
proof -
  have g: "0 < (2 :: real)" by simp
  have filt: "filtfilt scipy_double b a (map ((*) 2) x) =
                map_sum id (map ((*) 2)) (filtfilt scipy_double b a x)" for b a x
    by (simp add: scipy_double_def)
  have wel: "welch scipy_double (map ((*) 2) x) (sample_frequency chanC3) n =
               map_sum id (\<lambda>(f, p). (f, map ((*) (2 * 2)) p))
                 (welch scipy_double x (sample_frequency chanC3) n)" for x n
    by (simp add: scipy_double_def)
  have "channel_profile scipy_double (chanC3\<lparr>samples := map ((*) 2) (samples chanC3)\<rparr>) =
          channel_profile scipy_double chanC3"
    using g filt wel by (rule relative_power_gain_invariant)
  moreover have "chanC3\<lparr>samples := map ((*) 2) (samples chanC3)\<rparr> =
          \<lparr>label = ''C3'', sample_frequency = 256, samples = [2, 6, 4, 0, 8, 4]\<rparr>"
    by (simp add: chanC3_def)
  moreover have "channel_profile scipy_double chanC3 =
       Inr [(''Delta'', 13 / 17), (''Theta'', 4 / 17), (''Alpha'', 0), (''Beta'', 0),
            (''High Beta'', 0)]"
    by (simp add: model_defs double_defs)
  ultimately show ?thesis by simp
qed

end
